theory Spec2Isabelle
  imports Complex_Main
begin

section \<open>JavaScript numbers\<close>

text \<open>
  The allocation engine of \<^verbatim>\<open>src/lib/firebase.ts\<close> (the part after the Firebase set-up,
  imported elsewhere as \<^verbatim>\<open>warehouse-logic\<close>) computes with JavaScript numbers. A number
  is modelled as an exact rational or as \<open>NaN\<close>: \<open>NaN\<close> is what \<^verbatim>\<open>parseInt\<close> gives for
  a string without digits, what \<^verbatim>\<open>charCodeAt(0)\<close> gives for the empty string and what
  \<^verbatim>\<open>undefined\<close> becomes in arithmetic and in comparisons. Arithmetic on rationals
  is exact, where the code rounds to binary64; the infinities and the sign of zero are outside
  the model. The two agree on whole numbers below \<open>2^53\<close> and on the fractions with a
  power of two as denominator; elsewhere they differ by a rounding. A statement whose truth
  could turn on a rounding is stated where it cannot: for a bounded distance in C1 and for
  whole-number weights in C4.
\<close>

datatype jsnum = Num rat | NaN

fun jsadd :: "jsnum \<Rightarrow> jsnum \<Rightarrow> jsnum" where
  "jsadd (Num a) (Num b) = Num (a + b)"
| "jsadd _ _ = NaN"

fun jssub :: "jsnum \<Rightarrow> jsnum \<Rightarrow> jsnum" where
  "jssub (Num a) (Num b) = Num (a - b)"
| "jssub _ _ = NaN"

fun jsmul :: "jsnum \<Rightarrow> jsnum \<Rightarrow> jsnum" where
  "jsmul (Num a) (Num b) = Num (a * b)"
| "jsmul _ _ = NaN"

text \<open>
  A division by zero would give an infinity or \<open>NaN\<close> in JavaScript. The only divisor in
  the engine is an entry of the capacity table, which is never zero, so the model gives
  \<open>NaN\<close> there.
\<close>

fun jsdiv :: "jsnum \<Rightarrow> jsnum \<Rightarrow> jsnum" where
  "jsdiv (Num a) (Num b) = (if b = 0 then NaN else Num (a / b))"
| "jsdiv _ _ = NaN"

fun jsabs :: "jsnum \<Rightarrow> jsnum" where
  "jsabs (Num a) = Num \<bar>a\<bar>"
| "jsabs NaN = NaN"

text \<open>Every comparison with \<open>NaN\<close> is false; \<^verbatim>\<open>!==\<close> with \<open>NaN\<close> is true.\<close>

fun jsgt :: "jsnum \<Rightarrow> jsnum \<Rightarrow> bool" where
  "jsgt (Num a) (Num b) = (a > b)"
| "jsgt _ _ = False"

fun jslt :: "jsnum \<Rightarrow> jsnum \<Rightarrow> bool" where
  "jslt (Num a) (Num b) = (a < b)"
| "jslt _ _ = False"

fun jsle :: "jsnum \<Rightarrow> jsnum \<Rightarrow> bool" where
  "jsle (Num a) (Num b) = (a \<le> b)"
| "jsle _ _ = False"

fun jsStrictNe :: "jsnum \<Rightarrow> jsnum \<Rightarrow> bool" where
  "jsStrictNe (Num a) (Num b) = (a \<noteq> b)"
| "jsStrictNe _ _ = True"

definition MAX_SAFE_INTEGER :: rat where
  "MAX_SAFE_INTEGER = 9007199254740991"

text \<open>\<^verbatim>\<open>ToNumber\<close> of a table lookup: a missing entry is \<^verbatim>\<open>undefined\<close>, hence \<open>NaN\<close>.\<close>

definition toNumber :: "rat option \<Rightarrow> jsnum" where
  "toNumber v = (case v of None \<Rightarrow> NaN | Some x \<Rightarrow> Num x)"

text \<open>
  \<^verbatim>\<open>x || 0\<close> on an optional number: a missing field, \<open>NaN\<close> and \<open>0\<close> are falsy and give
  \<open>0\<close>.
\<close>

definition orZero :: "jsnum option \<Rightarrow> jsnum" where
  "orZero v = (case v of None \<Rightarrow> Num 0 | Some NaN \<Rightarrow> Num 0 | Some (Num x) \<Rightarrow> Num x)"

subsection \<open>Strings to numbers\<close>

text \<open>
  Strings are lists of code units below 256. \<^verbatim>\<open>parseInt\<close> without a radix skips leading
  white space, reads a sign, switches to radix 16 after \<^verbatim>\<open>0x\<close> or \<^verbatim>\<open>0X\<close>, and reads
  the longest run of digits; no digit gives \<open>NaN\<close>.
\<close>

definition isWhiteSpace :: "char \<Rightarrow> bool" where
  "isWhiteSpace c = ((of_char c :: int) \<in> {9, 10, 11, 12, 13, 32, 160})"

definition digitValue :: "char \<Rightarrow> int option" where
  "digitValue c =
     (let n = (of_char c :: int) in
      if 48 \<le> n \<and> n \<le> 57 then Some (n - 48)
      else if 97 \<le> n \<and> n \<le> 122 then Some (n - 87)
      else if 65 \<le> n \<and> n \<le> 90 then Some (n - 55)
      else None)"

definition isRadixDigit :: "int \<Rightarrow> char \<Rightarrow> bool" where
  "isRadixDigit R c = (case digitValue c of None \<Rightarrow> False | Some d \<Rightarrow> d < R)"

definition digitsValue :: "int \<Rightarrow> string \<Rightarrow> int" where
  "digitsValue R Z =
     foldl (\<lambda>acc c. acc * R + (case digitValue c of None \<Rightarrow> 0 | Some d \<Rightarrow> d)) 0 Z"

definition parseInt :: "string \<Rightarrow> jsnum" where
  "parseInt inputString =
     (let S = dropWhile isWhiteSpace inputString;
          sign = (case S of [] \<Rightarrow> 1 | c # _ \<Rightarrow> if c = CHR ''-'' then - 1 else (1 :: rat));
          S1 = (case S of [] \<Rightarrow> S
                | c # rest \<Rightarrow> if c = CHR ''+'' \<or> c = CHR ''-'' then rest else S);
          hex = (case S1 of a # b # _ \<Rightarrow> a = CHR ''0'' \<and> (b = CHR ''x'' \<or> b = CHR ''X'')
                 | _ \<Rightarrow> False);
          R = (if hex then 16 else 10);
          S2 = (if hex then drop 2 S1 else S1);
          Z = takeWhile (isRadixDigit R) S2
      in if Z = [] then NaN else Num (sign * of_int (digitsValue R Z)))"

text \<open>\<^verbatim>\<open>s.charCodeAt(0)\<close>: \<open>NaN\<close> for the empty string.\<close>

definition charCodeAt0 :: "string \<Rightarrow> jsnum" where
  "charCodeAt0 s = (case s of [] \<Rightarrow> NaN | c # _ \<Rightarrow> Num (of_int (of_char c)))"

section \<open>Data model\<close>

text \<open>
  The interface \<^verbatim>\<open>Location\<close> of \<^verbatim>\<open>src/types/warehouse.ts\<close>. The field \<^verbatim>\<open>id\<close> is
  \<open>loc_id\<close> here. \<open>currentWeight\<close> is optional because the engine itself allows for
  documents without it (\<^verbatim>\<open>loc.currentWeight || 0\<close>); \<open>available\<close> and \<open>verified\<close> hold
  the truthiness of the fields.
\<close>

record Location =
  loc_id :: string
  code :: string
  row :: string
  bay :: string
  level :: string
  location :: string
  maxWeight :: jsnum
  currentWeight :: "jsnum option"
  available :: bool
  verified :: bool

text \<open>
  The table \<^verbatim>\<open>LEVEL_MAX_WEIGHTS\<close>. A key outside the table reads as \<^verbatim>\<open>undefined\<close>; the
  properties an object literal inherits are functions or objects, which are \<open>NaN\<close> in
  every arithmetic use the engine makes of the entry, as \<^verbatim>\<open>undefined\<close> is.
\<close>

definition LEVEL_MAX_WEIGHTS :: "string \<rightharpoonup> rat" where
  "LEVEL_MAX_WEIGHTS =
     [''0'' \<mapsto> 2000, ''1'' \<mapsto> 1500, ''2'' \<mapsto> 1000, ''3'' \<mapsto> 750, ''4'' \<mapsto> 500]"

section \<open>The allocation engine\<close>

definition getLevelId :: "Location \<Rightarrow> string" where
  "getLevelId loc = row loc @ bay loc @ ''-'' @ level loc"

definition getLevelWeight :: "Location list \<Rightarrow> jsnum" where
  "getLevelWeight locations =
     foldl (\<lambda>total loc. jsadd total (orZero (currentWeight loc))) (Num 0) locations"

definition canAcceptWeight :: "Location \<Rightarrow> jsnum \<Rightarrow> Location list \<Rightarrow> bool" where
  "canAcceptWeight loc weight levelLocations =
     (if \<not> available loc \<or> \<not> verified loc then False
      else
        let currentLevelWeight = getLevelWeight levelLocations;
            newLevelWeight = jsadd currentLevelWeight weight;
            levelMaxWeight = toNumber (LEVEL_MAX_WEIGHTS (level loc))
        in if jsgt newLevelWeight levelMaxWeight then False else True)"

definition calculateDistanceScore :: "string \<Rightarrow> string \<Rightarrow> jsnum" where
  "calculateDistanceScore r b =
     (let rowScore = jsmul (jssub (charCodeAt0 r) (charCodeAt0 ''A'')) (Num 100);
          bayScore = jssub (parseInt b) (Num 1)
      in jsadd rowScore bayScore)"

definition calculateWeightScore :: "jsnum \<Rightarrow> string \<Rightarrow> Location list \<Rightarrow> jsnum" where
  "calculateWeightScore weight lvl levelLocations =
     (let levelNum = parseInt lvl;
          levelMaxWeight = toNumber (LEVEL_MAX_WEIGHTS lvl);
          currentLevelWeight = getLevelWeight levelLocations;
          newLevelWeight = jsadd currentLevelWeight weight
      in if jsgt newLevelWeight levelMaxWeight then Num MAX_SAFE_INTEGER
         else
           let heightPenalty = jsmul (jsmul weight levelNum) (Num 2);
               capacityScore = jsabs (jssub levelMaxWeight newLevelWeight);
               levelUtilization = jsdiv newLevelWeight levelMaxWeight;
               levelPenalty = jsmul levelUtilization (Num 1000)
           in jsadd (jsadd heightPenalty capacityScore) levelPenalty)"

subsection \<open>Faults and the array callbacks\<close>

text \<open>
  The engine has no \<^verbatim>\<open>throw\<close>. The one run-time fault its code could meet is a
  \<^verbatim>\<open>TypeError\<close>: reading \<^verbatim>\<open>levelGroups[levelKey]\<close> for an absent key gives
  \<^verbatim>\<open>undefined\<close>, on which \<^verbatim>\<open>getLevelWeight\<close> calls \<^verbatim>\<open>reduce\<close>, and
  \<^verbatim>\<open>scoredLocations[0].location\<close> on an empty array reads a field of \<^verbatim>\<open>undefined\<close>.
  Both are branches of the model, so that "no fault" is a statement to prove.
\<close>

datatype fault = TypeError

fun filterE :: "('a \<Rightarrow> fault + bool) \<Rightarrow> 'a list \<Rightarrow> fault + 'a list" where
  "filterE p [] = Inr []"
| "filterE p (x # xs) =
     (case p x of
        Inl e \<Rightarrow> Inl e
      | Inr keep \<Rightarrow>
          (case filterE p xs of
             Inl e \<Rightarrow> Inl e
           | Inr ys \<Rightarrow> Inr (if keep then x # ys else ys)))"

fun mapE :: "('a \<Rightarrow> fault + 'b) \<Rightarrow> 'a list \<Rightarrow> fault + 'b list" where
  "mapE f [] = Inr []"
| "mapE f (x # xs) =
     (case f x of
        Inl e \<Rightarrow> Inl e
      | Inr y \<Rightarrow> (case mapE f xs of Inl e \<Rightarrow> Inl e | Inr ys \<Rightarrow> Inr (y # ys)))"

subsection \<open>Sorting by score\<close>

text \<open>
  A scored location \<^verbatim>\<open>{location, score}\<close> is a pair. The comparator is
  \<^verbatim>\<open>(a, b) => a.score - b.score\<close>; \<^verbatim>\<open>Array.prototype.sort\<close> reads a negative result
  as "a before b" and takes \<open>NaN\<close> for \<open>0\<close>. The sort is stable, so with a consistent
  comparator its result is the one of a stable insertion sort, which is the model. Where
  numeric and \<open>NaN\<close> scores are mixed the comparator is not consistent and ECMAScript
  leaves the order to the implementation: an engine may then return another order than this
  insertion sort. The statements about which entry comes first (C3, C7) are therefore made for
  numeric scores only, and no example below sorts an array with a \<open>NaN\<close> score and a
  second entry.
\<close>

type_synonym scored = "Location \<times> jsnum"

definition compareFn :: "scored \<Rightarrow> scored \<Rightarrow> jsnum" where
  "compareFn a b = jssub (snd a) (snd b)"

definition sortsBefore :: "scored \<Rightarrow> scored \<Rightarrow> bool" where
  "sortsBefore a b = jslt (compareFn a b) (Num 0)"

fun insertSorted :: "scored \<Rightarrow> scored list \<Rightarrow> scored list" where
  "insertSorted x [] = [x]"
| "insertSorted x (y # ys) =
     (if sortsBefore y x then y # insertSorted x ys else x # y # ys)"

definition jsSort :: "scored list \<Rightarrow> scored list" where
  "jsSort xs = foldr insertSorted xs []"

subsection \<open>findOptimalLocation\<close>

text \<open>
  The stages carry the names of the constants of the source function:
  \<open>availableLocations\<close> is the first filter, \<open>levelGroups\<close> the \<^verbatim>\<open>reduce\<close> that
  builds the object keyed by \<^verbatim>\<open>`${loc.row}${loc.bay}-${loc.level}`\<close>,
  \<open>validLocations\<close> the filter on \<open>canAcceptWeight\<close>, and \<open>scoredLocations\<close> the
  \<^verbatim>\<open>map\<close> to scored entries followed by the filter on
  \<^verbatim>\<open>score !== Number.MAX_SAFE_INTEGER\<close>. \<open>levelLocationsOf\<close> is the read
  \<^verbatim>\<open>levelGroups[levelKey]\<close> that both callbacks make. The result \<^verbatim>\<open>null\<close> is
  \<open>Inr None\<close>.
\<close>

type_synonym groups = "string \<rightharpoonup> Location list"

definition availableLocations :: "Location list \<Rightarrow> Location list" where
  "availableLocations locations = filter (\<lambda>loc. available loc \<and> verified loc) locations"

definition addToGroup :: "groups \<Rightarrow> Location \<Rightarrow> groups" where
  "addToGroup grps loc =
     (let levelKey = row loc @ bay loc @ ''-'' @ level loc in
      case grps levelKey of
        None \<Rightarrow> grps(levelKey \<mapsto> [loc])
      | Some g \<Rightarrow> grps(levelKey \<mapsto> g @ [loc]))"

definition levelGroups :: "Location list \<Rightarrow> groups" where
  "levelGroups avail = foldl addToGroup Map.empty avail"

definition levelLocationsOf :: "groups \<Rightarrow> Location \<Rightarrow> fault + Location list" where
  "levelLocationsOf grps loc =
     (let levelKey = row loc @ bay loc @ ''-'' @ level loc in
      case grps levelKey of None \<Rightarrow> Inl TypeError | Some ls \<Rightarrow> Inr ls)"

definition validLocations :: "groups \<Rightarrow> jsnum \<Rightarrow> Location list \<Rightarrow> fault + Location list" where
  "validLocations grps weight avail =
     filterE (\<lambda>loc. case levelLocationsOf grps loc of
                      Inl e \<Rightarrow> Inl e
                    | Inr levelLocations \<Rightarrow> Inr (canAcceptWeight loc weight levelLocations))
       avail"

definition scoreLocation :: "groups \<Rightarrow> jsnum \<Rightarrow> Location \<Rightarrow> fault + scored" where
  "scoreLocation grps weight loc =
     (case levelLocationsOf grps loc of
        Inl e \<Rightarrow> Inl e
      | Inr levelLocations \<Rightarrow>
          let distanceScore = calculateDistanceScore (row loc) (bay loc);
              weightScore = calculateWeightScore weight (level loc) levelLocations
          in Inr (loc, jsadd distanceScore weightScore))"

definition scoredLocations :: "groups \<Rightarrow> jsnum \<Rightarrow> Location list \<Rightarrow> fault + scored list" where
  "scoredLocations grps weight valid =
     (case mapE (scoreLocation grps weight) valid of
        Inl e \<Rightarrow> Inl e
      | Inr ss \<Rightarrow> Inr (filter (\<lambda>s. jsStrictNe (snd s) (Num MAX_SAFE_INTEGER)) ss))"

definition findOptimalLocation :: "Location list \<Rightarrow> jsnum \<Rightarrow> fault + Location option" where
  "findOptimalLocation locations weight =
     (let avail = availableLocations locations in
      if length avail = 0 then Inr None
      else
        let grps = levelGroups avail in
        case validLocations grps weight avail of
          Inl e \<Rightarrow> Inl e
        | Inr valid \<Rightarrow>
            if length valid = 0 then Inr None
            else
              (case scoredLocations grps weight valid of
                 Inl e \<Rightarrow> Inl e
               | Inr ss \<Rightarrow>
                   if length ss = 0 then Inr None
                   else
                     (case jsSort ss of
                        [] \<Rightarrow> Inl TypeError
                      | best # _ \<Rightarrow> Inr (Some (fst best)))))"

section \<open>Notions used to state the properties\<close>

text \<open>
  The level of a candidate within one call: the available and verified candidates with the
  same level key, in input order. \<open>levelGroups_lookup\<close> below shows that this is the
  array the engine reads from \<open>levelGroups\<close>.
\<close>

definition sameLevel :: "Location list \<Rightarrow> Location \<Rightarrow> Location list" where
  "sameLevel locations c =
     filter (\<lambda>l. getLevelId l = getLevelId c) (availableLocations locations)"

definition eligible :: "Location list \<Rightarrow> jsnum \<Rightarrow> Location \<Rightarrow> bool" where
  "eligible locations weight c = canAcceptWeight c weight (sameLevel locations c)"

definition scoreOf :: "Location list \<Rightarrow> jsnum \<Rightarrow> Location \<Rightarrow> jsnum" where
  "scoreOf locations weight c =
     jsadd (calculateDistanceScore (row c) (bay c))
       (calculateWeightScore weight (level c) (sameLevel locations c))"

text \<open>
  The level's aggregate weight plus the required weight does not exceed the level's
  configured maximum, with the comparison of the code.
\<close>

definition withinCap :: "Location list \<Rightarrow> jsnum \<Rightarrow> Location \<Rightarrow> bool" where
  "withinCap locations weight c =
     (\<not> jsgt (jsadd (getLevelWeight (sameLevel locations c)) weight)
          (toNumber (LEVEL_MAX_WEIGHTS (level c))))"

text \<open>The scored candidates that reach the sort.\<close>

definition ranked :: "Location list \<Rightarrow> jsnum \<Rightarrow> scored list" where
  "ranked locations weight =
     filter (\<lambda>s. jsStrictNe (snd s) (Num MAX_SAFE_INTEGER))
       (map (\<lambda>c. (c, scoreOf locations weight c))
          (filter (eligible locations weight) (availableLocations locations)))"

text \<open>The weight a location contributes to its level, as a rational.\<close>

definition weightOrZero :: "Location \<Rightarrow> rat" where
  "weightOrZero l = (case currentWeight l of Some (Num x) \<Rightarrow> x | _ \<Rightarrow> 0)"

text \<open>
  A non-negative whole number. Sums of such weights are exact in binary64 as long as they
  matter for a comparison with a level maximum.
\<close>

definition wholeNumber :: "rat \<Rightarrow> bool" where
  "wholeNumber q = (0 \<le> q \<and> of_int \<lfloor>q\<rfloor> = q)"

text \<open>
  The level as the specification's data model has it: every slot of the list with the
  candidate's level key, whether or not it is available and verified.
\<close>

definition levelSlots :: "Location list \<Rightarrow> Location \<Rightarrow> Location list" where
  "levelSlots locations c = filter (\<lambda>l. getLevelId l = getLevelId c) locations"

text \<open>
  The score as the specification states it, for a given aggregate weight of the level:
  \<open>distanceScore + weightScore\<close> with
  \<open>distanceScore = (rank of the row, A = 0) * 100 + (bay - 1)\<close> and
  \<open>weightScore = weight * tier * 2 + |max - new| + (new / max) * 1000\<close>, where
  \<open>new\<close> is the aggregate plus the required weight.
\<close>

definition statedScore :: "jsnum \<Rightarrow> jsnum \<Rightarrow> Location \<Rightarrow> jsnum" where
  "statedScore levelWeight weight c =
     (let distanceScore =
            jsadd (jsmul (jssub (charCodeAt0 (row c)) (Num 65)) (Num 100))
              (jssub (parseInt (bay c)) (Num 1));
          levelMaxWeight = toNumber (LEVEL_MAX_WEIGHTS (level c));
          newLevelWeight = jsadd levelWeight weight;
          weightScore =
            jsadd
              (jsadd (jsmul (jsmul weight (parseInt (level c))) (Num 2))
                 (jsabs (jssub levelMaxWeight newLevelWeight)))
              (jsmul (jsdiv newLevelWeight levelMaxWeight) (Num 1000))
      in jsadd distanceScore weightScore)"

subsection \<open>The simplified engine\<close>

text \<open>
  The engine the specification proposes as a simplification: it relies on the eligibility
  filter alone. The scorer has no over-capacity branch and the scored candidates are not
  filtered again before the sort.
\<close>

definition simplifiedWeightScore :: "jsnum \<Rightarrow> string \<Rightarrow> Location list \<Rightarrow> jsnum" where
  "simplifiedWeightScore weight lvl levelLocations =
     (let levelNum = parseInt lvl;
          levelMaxWeight = toNumber (LEVEL_MAX_WEIGHTS lvl);
          currentLevelWeight = getLevelWeight levelLocations;
          newLevelWeight = jsadd currentLevelWeight weight;
          heightPenalty = jsmul (jsmul weight levelNum) (Num 2);
          capacityScore = jsabs (jssub levelMaxWeight newLevelWeight);
          levelUtilization = jsdiv newLevelWeight levelMaxWeight;
          levelPenalty = jsmul levelUtilization (Num 1000)
      in jsadd (jsadd heightPenalty capacityScore) levelPenalty)"

definition simplifiedScoreLocation :: "groups \<Rightarrow> jsnum \<Rightarrow> Location \<Rightarrow> fault + scored" where
  "simplifiedScoreLocation grps weight loc =
     (case levelLocationsOf grps loc of
        Inl e \<Rightarrow> Inl e
      | Inr levelLocations \<Rightarrow>
          let distanceScore = calculateDistanceScore (row loc) (bay loc);
              weightScore = simplifiedWeightScore weight (level loc) levelLocations
          in Inr (loc, jsadd distanceScore weightScore))"

definition simplifiedFindOptimalLocation ::
  "Location list \<Rightarrow> jsnum \<Rightarrow> fault + Location option" where
  "simplifiedFindOptimalLocation locations weight =
     (let avail = availableLocations locations in
      if length avail = 0 then Inr None
      else
        let grps = levelGroups avail in
        case validLocations grps weight avail of
          Inl e \<Rightarrow> Inl e
        | Inr valid \<Rightarrow>
            if length valid = 0 then Inr None
            else
              (case mapE (simplifiedScoreLocation grps weight) valid of
                 Inl e \<Rightarrow> Inl e
               | Inr ss \<Rightarrow>
                   (case jsSort ss of
                      [] \<Rightarrow> Inl TypeError
                    | best # _ \<Rightarrow> Inr (Some (fst best)))))"

subsection \<open>Example locations\<close>

text \<open>
  \<open>slot r b l w a v\<close> is the location of row \<open>r\<close>, bay \<open>b\<close> and tier \<open>l\<close> that holds
  the weight \<open>w\<close>, with the flags \<open>a\<close> (available) and \<open>v\<close> (verified).
\<close>

definition slot :: "string \<Rightarrow> string \<Rightarrow> string \<Rightarrow> rat \<Rightarrow> bool \<Rightarrow> bool \<Rightarrow> Location" where
  "slot r b l w a v =
     \<lparr>loc_id = r @ b @ ''-'' @ l, code = r @ b @ ''-'' @ l, row = r, bay = b, level = l,
      location = ''1'', maxWeight = toNumber (LEVEL_MAX_WEIGHTS l),
      currentWeight = Some (Num w), available = a, verified = v\<rparr>"

section \<open>The engine as a pure function\<close>

text \<open>
  Every key the callbacks look up was entered by the grouping pass, so no look-up fails and
  the stages are plain \<open>filter\<close> and \<open>map\<close>.
\<close>

lemma foldl_addToGroup:
  "foldl addToGroup g xs k =
     (if filter (\<lambda>l. getLevelId l = k) xs = [] then g k
      else Some ((case g k of None \<Rightarrow> [] | Some zs \<Rightarrow> zs) @ filter (\<lambda>l. getLevelId l = k) xs))"
  by (induction xs arbitrary: g)
     (auto simp: addToGroup_def getLevelId_def Let_def split: option.splits)

lemma levelGroups_lookup:
  assumes "c \<in> set avail"
  shows "levelGroups avail (getLevelId c) = Some (filter (\<lambda>l. getLevelId l = getLevelId c) avail)"
proof -
  have "filter (\<lambda>l. getLevelId l = getLevelId c) avail \<noteq> []"
    using assms by (auto simp: filter_empty_conv)
  then show ?thesis
    by (simp add: levelGroups_def foldl_addToGroup)
qed

lemma levelLocationsOf_available:
  assumes "c \<in> set (availableLocations locs)"
  shows "levelLocationsOf (levelGroups (availableLocations locs)) c = Inr (sameLevel locs c)"
  using levelGroups_lookup [OF assms]
  by (simp add: levelLocationsOf_def sameLevel_def getLevelId_def)

lemma filterE_pure:
  "(\<And>x. x \<in> set xs \<Longrightarrow> p x = Inr (q x)) \<Longrightarrow> filterE p xs = Inr (filter q xs)"
  by (induction xs) auto

lemma mapE_pure:
  "(\<And>x. x \<in> set xs \<Longrightarrow> f x = Inr (g x)) \<Longrightarrow> mapE f xs = Inr (map g xs)"
  by (induction xs) auto

lemma validLocations_eq:
  "validLocations (levelGroups (availableLocations locs)) w (availableLocations locs) =
     Inr (filter (eligible locs w) (availableLocations locs))"
  unfolding validLocations_def
  by (rule filterE_pure) (simp add: levelLocationsOf_available eligible_def)

lemma scoreLocation_available:
  "c \<in> set (availableLocations locs) \<Longrightarrow>
     scoreLocation (levelGroups (availableLocations locs)) w c = Inr (c, scoreOf locs w c)"
  by (simp add: scoreLocation_def levelLocationsOf_available scoreOf_def)

lemma scoredLocations_eq:
  "scoredLocations (levelGroups (availableLocations locs)) w
       (filter (eligible locs w) (availableLocations locs)) =
     Inr (ranked locs w)"
proof -
  have "mapE (scoreLocation (levelGroups (availableLocations locs)) w)
          (filter (eligible locs w) (availableLocations locs)) =
        Inr (map (\<lambda>c. (c, scoreOf locs w c)) (filter (eligible locs w) (availableLocations locs)))"
    by (rule mapE_pure) (simp add: scoreLocation_available)
  then show ?thesis
    by (simp add: scoredLocations_def ranked_def)
qed

lemma insertSorted_not_Nil: "insertSorted x ys \<noteq> []"
  by (cases ys) auto

lemma jsSort_Cons: "jsSort (x # xs) = insertSorted x (jsSort xs)"
  by (simp add: jsSort_def)

lemma jsSort_Nil_iff: "jsSort xs = [] \<longleftrightarrow> xs = []"
  by (cases xs) (simp_all add: jsSort_def insertSorted_not_Nil)

lemma set_insertSorted: "set (insertSorted x ys) = insert x (set ys)"
  by (induction ys) auto

lemma set_jsSort: "set (jsSort xs) = set xs"
  by (induction xs) (simp_all add: jsSort_def set_insertSorted)

lemma ranked_Nil_if_no_eligible:
  "filter (eligible locs w) (availableLocations locs) = [] \<Longrightarrow> ranked locs w = []"
  by (simp add: ranked_def)

lemma findOptimalLocation_eq:
  "findOptimalLocation locs w =
     Inr (case jsSort (ranked locs w) of [] \<Rightarrow> None | best # _ \<Rightarrow> Some (fst best))"
proof (cases "availableLocations locs = []")
  case True
  then show ?thesis
    by (simp add: findOptimalLocation_def ranked_def jsSort_def)
next
  case avail: False
  show ?thesis
  proof (cases "filter (eligible locs w) (availableLocations locs) = []")
    case True
    then show ?thesis
      using avail
      by (simp add: findOptimalLocation_def validLocations_eq ranked_def jsSort_def)
  next
    case valid: False
    show ?thesis
    proof (cases "ranked locs w = []")
      case True
      then show ?thesis
        using avail valid
        by (simp add: findOptimalLocation_def validLocations_eq scoredLocations_eq jsSort_def)
    next
      case False
      then have "jsSort (ranked locs w) \<noteq> []"
        by (simp add: jsSort_Nil_iff)
      then show ?thesis
        using avail valid False
        by (simp add: findOptimalLocation_def validLocations_eq scoredLocations_eq
            split: list.splits)
    qed
  qed
qed

section \<open>The head of the sorted array\<close>

lemma jsSort_head_split:
  "jsSort xs = b # rest \<Longrightarrow>
     \<exists>pre post. xs = pre @ b # post \<and> (\<forall>s \<in> set pre. sortsBefore b s)"
proof (induction xs arbitrary: b rest)
  case Nil
  then show ?case by (simp add: jsSort_def)
next
  case (Cons x xs)
  show ?case
  proof (cases "jsSort xs")
    case Nil
    then have "xs = []" by (simp add: jsSort_Nil_iff)
    with Cons.prems have "b = x" by (simp add: jsSort_def)
    with \<open>xs = []\<close> have "x # xs = [] @ b # [] \<and> (\<forall>s \<in> set []. sortsBefore b s)"
      by simp
    then show ?thesis by blast
  next
    case (Cons h t)
    from Cons.IH [OF Cons] obtain pre post
      where split: "xs = pre @ h # post" and before: "\<forall>s \<in> set pre. sortsBefore h s"
      by blast
    show ?thesis
    proof (cases "sortsBefore h x")
      case True
      with Cons Cons.prems have "b = h" by (simp add: jsSort_Cons)
      with split before True have "x # xs = (x # pre) @ b # post \<and> (\<forall>s \<in> set (x # pre). sortsBefore b s)"
        by simp
      then show ?thesis by blast
    next
      case False
      with Cons Cons.prems have "b = x" by (simp add: jsSort_Cons)
      then have "x # xs = [] @ b # xs \<and> (\<forall>s \<in> set []. sortsBefore b s)" by simp
      then show ?thesis by blast
    qed
  qed
qed

lemma sortsBefore_Num: "snd a = Num p \<Longrightarrow> snd b = Num q \<Longrightarrow> sortsBefore a b \<longleftrightarrow> p < q"
  by (simp add: sortsBefore_def compareFn_def)

lemma sortsBefore_D: "sortsBefore a b \<Longrightarrow> jslt (snd a) (snd b)"
  by (cases "snd a"; cases "snd b") (simp_all add: sortsBefore_def compareFn_def)

lemma jslt_neq: "jslt a b \<Longrightarrow> a \<noteq> b"
  by (cases a; cases b) auto

lemma jsSort_head_min:
  "(\<And>s. s \<in> set xs \<Longrightarrow> \<exists>q. snd s = Num q) \<Longrightarrow> jsSort xs = b # rest \<Longrightarrow>
     s \<in> set xs \<Longrightarrow> jsle (snd b) (snd s)"
proof (induction xs arbitrary: b rest s)
  case Nil
  then show ?case by simp
next
  case (Cons x xs)
  obtain qx where qx: "snd x = Num qx" using Cons.prems(1) [of x] by auto
  show ?case
  proof (cases "jsSort xs")
    case Nil
    then have "xs = []" by (simp add: jsSort_Nil_iff)
    with Cons.prems qx show ?thesis by (auto simp: jsSort_def)
  next
    case hd: (Cons h t)
    have h_in: "h \<in> set xs" using hd set_jsSort [of xs] by auto
    then obtain qh where qh: "snd h = Num qh" using Cons.prems(1) [of h] by auto
    have IH: "\<And>s. s \<in> set xs \<Longrightarrow> jsle (snd h) (snd s)"
      using Cons.IH [OF _ hd] Cons.prems(1) by auto
    obtain qs where qs: "snd s = Num qs" using Cons.prems(1) [OF Cons.prems(3)] by auto
    show ?thesis
    proof (cases "sortsBefore h x")
      case True
      with hd Cons.prems(2) have b: "b = h" by (simp add: jsSort_Cons)
      from True qh qx have lt: "qh < qx" by (simp add: sortsBefore_Num)
      show ?thesis
      proof (cases "s = x")
        case True
        with b qh qx lt show ?thesis by simp
      next
        case False
        with Cons.prems(3) have "s \<in> set xs" by simp
        from IH [OF this] b show ?thesis by simp
      qed
    next
      case False
      with hd Cons.prems(2) have b: "b = x" by (simp add: jsSort_Cons)
      from False qh qx have le: "qx \<le> qh" by (simp add: sortsBefore_Num)
      show ?thesis
      proof (cases "s = x")
        case True
        with b qx show ?thesis by simp
      next
        case False
        with Cons.prems(3) have "s \<in> set xs" by simp
        from IH [OF this] qh qs have "qh \<le> qs" by simp
        with le b qx qs show ?thesis by simp
      qed
    qed
  qed
qed

lemma ranked_fst: "s \<in> set (ranked locs w) \<Longrightarrow> s = (fst s, scoreOf locs w (fst s))"
  by (auto simp: ranked_def)

lemma ranked_iff:
  "(c, q) \<in> set (ranked locs w) \<longleftrightarrow>
     c \<in> set locs \<and> available c \<and> verified c \<and> eligible locs w c \<and> q = scoreOf locs w c \<and>
     jsStrictNe q (Num MAX_SAFE_INTEGER)"
  by (auto simp: ranked_def availableLocations_def)

lemma found_in_ranked:
  assumes "findOptimalLocation locs w = Inr (Some r)"
  shows "\<exists>rest. jsSort (ranked locs w) = (r, scoreOf locs w r) # rest"
proof -
  from assms obtain b rest where s: "jsSort (ranked locs w) = b # rest" and r: "fst b = r"
    by (auto simp: findOptimalLocation_eq split: list.splits)
  have "b \<in> set (ranked locs w)" using s set_jsSort [of "ranked locs w"] by auto
  from ranked_fst [OF this] r have "b = (r, scoreOf locs w r)" by simp
  with s show ?thesis by blast
qed

lemma found_ranked_member:
  assumes "findOptimalLocation locs w = Inr (Some r)"
  shows "(r, scoreOf locs w r) \<in> set (ranked locs w)"
proof -
  from found_in_ranked [OF assms] obtain rest
    where "jsSort (ranked locs w) = (r, scoreOf locs w r) # rest" by blast
  then show ?thesis using set_jsSort [of "ranked locs w"] by auto
qed

lemma eligible_iff: "eligible locs w c \<longleftrightarrow> available c \<and> verified c \<and> withinCap locs w c"
  by (auto simp: eligible_def canAcceptWeight_def withinCap_def Let_def)

lemma getLevelWeight_Num: "getLevelWeight ls = Num (\<Sum>l\<leftarrow>ls. weightOrZero l)"
proof -
  have "foldl (\<lambda>total loc. jsadd total (orZero (currentWeight loc))) (Num a) ls =
        Num (a + (\<Sum>l\<leftarrow>ls. weightOrZero l))" for a
    by (induction ls arbitrary: a)
       (auto simp: orZero_def weightOrZero_def split: option.splits jsnum.splits)
  from this [of 0] show ?thesis by (simp add: getLevelWeight_def)
qed

section \<open>Auxiliary facts\<close>

lemma filter_eq_append_ConsD:
  "filter P xs = ys @ y # zs \<Longrightarrow> \<exists>us vs. xs = us @ y # vs \<and> filter P us = ys \<and> P y"
proof (induction ys arbitrary: xs)
  case Nil
  then obtain us vs where "xs = us @ y # vs" "\<forall>u \<in> set us. \<not> P u" "P y"
    by (auto simp: filter_eq_Cons_iff)
  then have "xs = us @ y # vs \<and> filter P us = [] \<and> P y" by simp
  then show ?case by blast
next
  case (Cons a ys)
  from Cons.prems obtain us vs
    where xs: "xs = us @ a # vs" and us: "\<forall>u \<in> set us. \<not> P u" and a: "P a"
      and vs: "filter P vs = ys @ y # zs"
    by (auto simp: filter_eq_Cons_iff)
  from Cons.IH [OF vs] obtain us' vs'
    where vs': "vs = us' @ y # vs'" and f: "filter P us' = ys" and y: "P y" by blast
  from xs vs' us a f y
  have "xs = (us @ a # us') @ y # vs' \<and> filter P (us @ a # us') = a # ys \<and> P y" by simp
  then show ?case by blast
qed


lemma parseInt_0: "parseInt ''0'' = Num 0"
  by code_simp

lemma parseInt_1: "parseInt ''1'' = Num 1"
  by code_simp

lemma max_0: "LEVEL_MAX_WEIGHTS ''0'' = Some 2000"
  by (simp add: LEVEL_MAX_WEIGHTS_def)

lemma max_1: "LEVEL_MAX_WEIGHTS ''1'' = Some 1500"
  by (simp add: LEVEL_MAX_WEIGHTS_def)


lemma calculateWeightScore_eligible:
  "canAcceptWeight c w ls \<Longrightarrow>
     calculateWeightScore w (level c) ls = simplifiedWeightScore w (level c) ls"
  by (auto simp: canAcceptWeight_def calculateWeightScore_def simplifiedWeightScore_def Let_def
      split: if_splits)

lemma weightScore_unconfigured:
  "LEVEL_MAX_WEIGHTS lvl = None \<Longrightarrow> calculateWeightScore w lvl ls = NaN"
  by (simp add: calculateWeightScore_def toNumber_def Let_def)

lemma simplifiedScoreLocation_eligible:
  assumes "c \<in> set (availableLocations locs)" "eligible locs w c"
  shows "simplifiedScoreLocation (levelGroups (availableLocations locs)) w c =
           Inr (c, scoreOf locs w c)"
  using assms
  by (simp add: simplifiedScoreLocation_def levelLocationsOf_available scoreOf_def eligible_def
      calculateWeightScore_eligible)

lemma simplifiedFindOptimalLocation_eq:
  "simplifiedFindOptimalLocation locs w =
     Inr (case jsSort (map (\<lambda>c. (c, scoreOf locs w c))
                 (filter (eligible locs w) (availableLocations locs))) of
            [] \<Rightarrow> None
          | best # _ \<Rightarrow> Some (fst best))"
proof -
  let ?valid = "filter (eligible locs w) (availableLocations locs)"
  have scored: "mapE (simplifiedScoreLocation (levelGroups (availableLocations locs)) w) ?valid =
                  Inr (map (\<lambda>c. (c, scoreOf locs w c)) ?valid)"
    by (rule mapE_pure) (simp add: simplifiedScoreLocation_eligible)
  show ?thesis
  proof (cases "?valid = []")
    case True
    then show ?thesis
      by (simp add: simplifiedFindOptimalLocation_def validLocations_eq jsSort_def Let_def)
  next
    case False
    then have avail: "availableLocations locs \<noteq> []" by auto
    from False have "jsSort (map (\<lambda>c. (c, scoreOf locs w c)) ?valid) \<noteq> []"
      by (simp add: jsSort_Nil_iff)
    with False avail scored show ?thesis
      by (simp add: simplifiedFindOptimalLocation_def validLocations_eq Let_def
          split: list.splits)
  qed
qed

lemma availableLocations_idem:
  "availableLocations (availableLocations locs) = availableLocations locs"
  by (simp add: availableLocations_def)

lemma sameLevel_available: "sameLevel (availableLocations locs) = sameLevel locs"
  by (rule ext) (simp add: sameLevel_def availableLocations_idem)

lemma ranked_available: "ranked (availableLocations locs) w = ranked locs w"
proof -
  have "eligible (availableLocations locs) w = eligible locs w"
    by (rule ext) (simp add: eligible_def sameLevel_available)
  moreover have "scoreOf (availableLocations locs) w = scoreOf locs w"
    by (rule ext) (simp add: scoreOf_def sameLevel_available)
  ultimately show ?thesis
    by (simp add: ranked_def availableLocations_idem)
qed

lemma found_earliest_with_score:
  assumes "findOptimalLocation locs w = Inr (Some r)"
  shows "\<exists>pre post. locs = pre @ r # post \<and>
           (\<forall>c \<in> set pre. eligible locs w c \<longrightarrow> scoreOf locs w c \<noteq> scoreOf locs w r)"
proof -
  let ?Q = "\<lambda>c. (available c \<and> verified c) \<and> eligible locs w c \<and>
                  jsStrictNe (scoreOf locs w c) (Num MAX_SAFE_INTEGER)"
  let ?g = "\<lambda>c. (c, scoreOf locs w c)"
  have ranked_map: "ranked locs w = map ?g (filter ?Q locs)"
    by (simp add: ranked_def availableLocations_def filter_map o_def conj_commute conj_left_commute)
  from found_in_ranked [OF assms] obtain rest
    where sorted: "jsSort (ranked locs w) = ?g r # rest" by blast
  from jsSort_head_split [OF sorted] obtain pre' post'
    where split: "ranked locs w = pre' @ ?g r # post'"
      and before: "\<forall>s \<in> set pre'. sortsBefore (?g r) s" by blast
  from split ranked_map have "map ?g (filter ?Q locs) = pre' @ ?g r # post'" by simp
  then obtain ys1 ys2 where "filter ?Q locs = ys1 @ r # ys2" and pre': "map ?g ys1 = pre'"
    by (auto simp: map_eq_append_conv map_eq_Cons_conv)
  then obtain pre post where locs: "locs = pre @ r # post" and f_pre: "filter ?Q pre = ys1"
    and Qr: "?Q r"
    by (auto dest: filter_eq_append_ConsD)
  have "scoreOf locs w c \<noteq> scoreOf locs w r" if c: "c \<in> set pre" and el: "eligible locs w c" for c
  proof (cases "?Q c")
    case True
    with c f_pre have "c \<in> set ys1" by auto
    with pre' have "?g c \<in> set pre'" by auto
    with before have "sortsBefore (?g r) (?g c)" by blast
    then have "jslt (scoreOf locs w r) (scoreOf locs w c)" by (auto dest: sortsBefore_D)
    then show ?thesis by (auto dest: jslt_neq)
  next
    case False
    with el have "\<not> jsStrictNe (scoreOf locs w c) (Num MAX_SAFE_INTEGER)"
      by (auto simp: eligible_iff)
    with Qr show ?thesis by auto
  qed
  with locs show ?thesis by blast
qed

lemma scoreOf_stated:
  assumes "eligible locs w c"
  shows "scoreOf locs w c = statedScore (getLevelWeight (sameLevel locs c)) w c"
proof -
  have code_A: "charCodeAt0 ''A'' = Num 65"
    by (simp add: charCodeAt0_def)
  from assms have "canAcceptWeight c w (sameLevel locs c)" by (simp add: eligible_def)
  then show ?thesis
    unfolding scoreOf_def calculateWeightScore_eligible [OF \<open>canAcceptWeight c w (sameLevel locs c)\<close>]
    by (simp add: calculateDistanceScore_def simplifiedWeightScore_def statedScore_def Let_def code_A)
qed

section \<open>The claims\<close>

subsection \<open>C1: a light item between tier 0 and tier 1\<close>

text \<open>
  Claim C1, as amended. Two available, verified, empty locations of the same row and bay, one
  on tier \<open>0\<close> (maximum 2000) and one on tier \<open>1\<close> (maximum 1500), and a required weight
  of 100: whenever the row and the bay give a distance score that is a number of absolute
  value at most 1000000, the engine returns the tier-1 location, in either input order. The
  two scores are \<open>d + 1950\<close> for tier 0 and \<open>d + 200 + 1400 + 200/3\<close> for tier 1: the
  height penalty of 200 is smaller than the 500 by which the capacity term favours the
  tighter level. On such distances the difference of the two scores is far above any
  rounding of binary64, and neither score is near \<open>MAX_SAFE_INTEGER\<close>.
\<close>

theorem light_item_goes_to_tier_1:
  assumes lv: "level a = ''0''" "level b = ''1''"
    and same: "row a = row b" "bay a = bay b"
    and flags: "available a" "verified a" "available b" "verified b"
    and empty: "orZero (currentWeight a) = Num 0" "orZero (currentWeight b) = Num 0"
    and dist: "calculateDistanceScore (row a) (bay a) = Num d"
    and near: "\<bar>d\<bar> \<le> 1000000"
  shows "findOptimalLocation [a, b] (Num 100) = Inr (Some b) \<and>
         findOptimalLocation [b, a] (Num 100) = Inr (Some b)"
proof -
  have keys: "getLevelId a \<noteq> getLevelId b" "getLevelId b \<noteq> getLevelId a"
    using lv same by (auto simp: getLevelId_def)
  have wa: "getLevelWeight [a] = Num 0" and wb: "getLevelWeight [b] = Num 0"
    using empty by (simp_all add: getLevelWeight_def)
  have ga: "sameLevel [a, b] a = [a]" "sameLevel [b, a] a = [a]"
    and gb: "sameLevel [a, b] b = [b]" "sameLevel [b, a] b = [b]"
    using keys flags by (simp_all add: sameLevel_def availableLocations_def)
  have ea: "eligible [a, b] (Num 100) a" "eligible [b, a] (Num 100) a"
    and eb: "eligible [a, b] (Num 100) b" "eligible [b, a] (Num 100) b"
    using flags lv wa wb
    by (simp_all add: eligible_def ga gb canAcceptWeight_def max_0 max_1 toNumber_def)
  have sa: "scoreOf [a, b] (Num 100) a = Num (d + 1950)" "scoreOf [b, a] (Num 100) a = Num (d + 1950)"
    using lv wa dist
    by (simp_all add: scoreOf_def ga calculateWeightScore_def max_0 toNumber_def parseInt_0)
  have sb: "scoreOf [a, b] (Num 100) b = Num (d + 5000 / 3)"
    "scoreOf [b, a] (Num 100) b = Num (d + 5000 / 3)"
    using lv wb dist same
    by (simp_all add: scoreOf_def gb calculateWeightScore_def max_1 toNumber_def parseInt_1)
  have nb: "d + 5000 / 3 \<noteq> MAX_SAFE_INTEGER"
    using near by (simp add: MAX_SAFE_INTEGER_def abs_le_iff)
  have before: "sortsBefore (b, Num (d + 5000 / 3)) (a, Num (d + 1950))"
    by (simp add: sortsBefore_def compareFn_def)
  have after: "\<not> sortsBefore (a, Num (d + 1950)) (b, Num (d + 5000 / 3))"
    by (simp add: sortsBefore_def compareFn_def)
  have r1: "jsSort (ranked [a, b] (Num 100)) \<noteq> [] \<and> fst (hd (jsSort (ranked [a, b] (Num 100)))) = b"
    using flags ea eb sa sb nb before after
    by (simp add: ranked_def availableLocations_def jsSort_def)
  have r2: "jsSort (ranked [b, a] (Num 100)) \<noteq> [] \<and> fst (hd (jsSort (ranked [b, a] (Num 100)))) = b"
    using flags ea eb sa sb nb before after
    by (simp add: ranked_def availableLocations_def jsSort_def)
  from r1 r2 show ?thesis
    by (auto simp: findOptimalLocation_eq split: list.splits)
qed

text \<open>
  The scenario of the specification, row \<open>A\<close> and bay \<open>01\<close>, in both orders.
\<close>

theorem light_item_goes_to_tier_1_witness:
  "calculateDistanceScore (row (slot ''A'' ''01'' ''0'' 0 True True))
     (bay (slot ''A'' ''01'' ''0'' 0 True True)) = Num 0 \<and>
   findOptimalLocation [slot ''A'' ''01'' ''0'' 0 True True, slot ''A'' ''01'' ''1'' 0 True True]
     (Num 100) = Inr (Some (slot ''A'' ''01'' ''1'' 0 True True)) \<and>
   findOptimalLocation [slot ''A'' ''01'' ''1'' 0 True True, slot ''A'' ''01'' ''0'' 0 True True]
     (Num 100) = Inr (Some (slot ''A'' ''01'' ''1'' 0 True True))"
proof -
  have dist: "calculateDistanceScore (row (slot ''A'' ''01'' ''0'' 0 True True))
                (bay (slot ''A'' ''01'' ''0'' 0 True True)) = Num 0"
    by code_simp
  have near: "\<bar>0 :: rat\<bar> \<le> 1000000"
    by simp
  have "findOptimalLocation [slot ''A'' ''01'' ''0'' 0 True True, slot ''A'' ''01'' ''1'' 0 True True]
     (Num 100) = Inr (Some (slot ''A'' ''01'' ''1'' 0 True True)) \<and>
   findOptimalLocation [slot ''A'' ''01'' ''1'' 0 True True, slot ''A'' ''01'' ''0'' 0 True True]
     (Num 100) = Inr (Some (slot ''A'' ''01'' ''1'' 0 True True))"
    by (rule light_item_goes_to_tier_1 [OF _ _ _ _ _ _ _ _ _ _ dist near])
       (simp_all add: slot_def orZero_def)
  with dist show ?thesis by blast
qed

text \<open>
  The claim as stated, that the tier-0 location is returned, fails on the same scenario.
\<close>

theorem tier_0_not_selected:
  "findOptimalLocation [slot ''A'' ''01'' ''0'' 0 True True, slot ''A'' ''01'' ''1'' 0 True True]
     (Num 100) \<noteq> Inr (Some (slot ''A'' ''01'' ''0'' 0 True True))"
  by code_simp

subsection \<open>C2: a tier without a configured maximum\<close>

text \<open>
  Claim C2, as amended. For a candidate whose tier has no entry in \<open>LEVEL_MAX_WEIGHTS\<close>
  no fallback capacity is used, its weight score is \<open>NaN\<close>, and no fault is signalled:
  the engine still answers with "no location" or with an available and verified candidate of
  the list.
\<close>

theorem unconfigured_tier_no_fault:
  assumes "LEVEL_MAX_WEIGHTS (level c) = None" and "c \<in> set locs"
  shows "calculateWeightScore w (level c) ls = NaN \<and>
     (findOptimalLocation locs w = Inr None \<or>
      (\<exists>r \<in> set locs. available r \<and> verified r \<and> findOptimalLocation locs w = Inr (Some r)))"
proof -
  have score: "calculateWeightScore w (level c) ls = NaN"
    using assms(1) by (rule weightScore_unconfigured)
  have "findOptimalLocation locs w = Inr None \<or>
      (\<exists>r \<in> set locs. available r \<and> verified r \<and> findOptimalLocation locs w = Inr (Some r))"
  proof (cases "jsSort (ranked locs w)")
    case Nil
    then show ?thesis by (simp add: findOptimalLocation_eq)
  next
    case (Cons b rest)
    then have found: "findOptimalLocation locs w = Inr (Some (fst b))"
      by (simp add: findOptimalLocation_eq)
    from found_ranked_member [OF found]
    have "fst b \<in> set locs \<and> available (fst b) \<and> verified (fst b)"
      by (simp add: ranked_iff)
    with found show ?thesis by blast
  qed
  with score show ?thesis by blast
qed

text \<open>
  A list with two tier-5 locations, the first of them unverified.
\<close>

theorem unconfigured_tier_no_fault_witness:
  "LEVEL_MAX_WEIGHTS (level (slot ''A'' ''01'' ''5'' 0 True True)) = None \<and>
   slot ''A'' ''01'' ''5'' 0 True True \<in>
     set [slot ''A'' ''01'' ''5'' 0 True False, slot ''A'' ''01'' ''5'' 0 True True] \<and>
   calculateWeightScore (Num 100) (level (slot ''A'' ''01'' ''5'' 0 True True))
     [slot ''A'' ''01'' ''5'' 0 True True] = NaN \<and>
   (findOptimalLocation [slot ''A'' ''01'' ''5'' 0 True False, slot ''A'' ''01'' ''5'' 0 True True]
      (Num 100) = Inr None \<or>
    (\<exists>r \<in> set [slot ''A'' ''01'' ''5'' 0 True False, slot ''A'' ''01'' ''5'' 0 True True].
       available r \<and> verified r \<and>
       findOptimalLocation
         [slot ''A'' ''01'' ''5'' 0 True False, slot ''A'' ''01'' ''5'' 0 True True]
         (Num 100) = Inr (Some r)))"
proof -
  let ?c = "slot ''A'' ''01'' ''5'' 0 True True"
  let ?L = "[slot ''A'' ''01'' ''5'' 0 True False, ?c]"
  have tier: "LEVEL_MAX_WEIGHTS (level ?c) = None"
    by (simp add: slot_def LEVEL_MAX_WEIGHTS_def)
  have mem: "?c \<in> set ?L"
    by simp
  from unconfigured_tier_no_fault [OF tier mem, of "Num 100" "[?c]"] tier mem show ?thesis
    by blast
qed

text \<open>
  The claim as stated fails: a single available and verified tier-5 location passes
  \<open>canAcceptWeight\<close> and is returned as an ordinary result.
\<close>

theorem unconfigured_tier_returned:
  "LEVEL_MAX_WEIGHTS (level (slot ''A'' ''01'' ''5'' 0 True True)) = None \<and>
   canAcceptWeight (slot ''A'' ''01'' ''5'' 0 True True) (Num 100)
     [slot ''A'' ''01'' ''5'' 0 True True] \<and>
   findOptimalLocation [slot ''A'' ''01'' ''5'' 0 True True] (Num 100) =
     Inr (Some (slot ''A'' ''01'' ''5'' 0 True True))"
  by code_simp

subsection \<open>C3: the returned location has the least score\<close>




subsection \<open>C4: the returned location and its level maximum\<close>

text \<open>
  Claim C4, as amended. When a location of a configured tier is returned, the weight counted
  for its level, which is the \<open>currentWeight\<close> of the available and verified candidates
  of the level and not that of its other slots, plus the required weight is not greater than
  the maximum of the tier; for whole-number weights this is \<open>\<le>\<close> between the exact sums.
  The bound is exact: on a level whose counted weight equals its maximum, a weight of 0 is
  admissible and a weight of 1 is not, so the location is not returned for it.
\<close>

theorem counted_weight_within_cap:
  "(findOptimalLocation locs w = Inr (Some r) \<and> LEVEL_MAX_WEIGHTS (level r) = Some m \<longrightarrow>
      \<not> jsgt (jsadd (getLevelWeight (sameLevel locs r)) w) (Num m) \<and>
      (w = Num x \<and> wholeNumber x \<and>
       list_all (\<lambda>l. wholeNumber (weightOrZero l)) (sameLevel locs r) \<longrightarrow>
         (\<Sum>l\<leftarrow>sameLevel locs r. weightOrZero l) + x \<le> m)) \<and>
   (available c \<and> verified c \<and> LEVEL_MAX_WEIGHTS (level c) = Some cap \<and>
    getLevelWeight (sameLevel locs c) = Num cap \<longrightarrow>
      eligible locs (Num 0) c \<and> \<not> eligible locs (Num 1) c \<and>
      findOptimalLocation locs (Num 1) \<noteq> Inr (Some c))"
proof -
  have ret: "\<not> jsgt (jsadd (getLevelWeight (sameLevel locs r)) w) (Num m)"
    if "findOptimalLocation locs w = Inr (Some r)" "LEVEL_MAX_WEIGHTS (level r) = Some m"
    using found_ranked_member [OF that(1)] that(2)
    by (simp add: ranked_iff eligible_iff withinCap_def toNumber_def)
  have num: "(\<Sum>l\<leftarrow>sameLevel locs r. weightOrZero l) + x \<le> m"
    if "findOptimalLocation locs w = Inr (Some r)" "LEVEL_MAX_WEIGHTS (level r) = Some m" "w = Num x"
    using ret [OF that(1,2)] that(3) by (simp add: getLevelWeight_Num)
  have bound: "eligible locs (Num 0) c \<and> \<not> eligible locs (Num 1) c"
    if "available c" "verified c" "LEVEL_MAX_WEIGHTS (level c) = Some cap"
      "getLevelWeight (sameLevel locs c) = Num cap"
    using that by (simp add: eligible_iff withinCap_def toNumber_def)
  have excl: "findOptimalLocation locs (Num 1) \<noteq> Inr (Some c)" if "\<not> eligible locs (Num 1) c"
    using that found_ranked_member [of locs "Num 1" c] by (auto simp: ranked_iff)
  show ?thesis using ret num bound excl by blast
qed

text \<open>
  A tier-0 location alone on its level, holding 2000 of 2000.
\<close>

theorem counted_weight_within_cap_witness:
  "findOptimalLocation [slot ''A'' ''01'' ''0'' 2000 True True] (Num 0) =
     Inr (Some (slot ''A'' ''01'' ''0'' 2000 True True)) \<and>
   LEVEL_MAX_WEIGHTS (level (slot ''A'' ''01'' ''0'' 2000 True True)) = Some 2000 \<and>
   wholeNumber 0 \<and>
   list_all (\<lambda>l. wholeNumber (weightOrZero l))
     (sameLevel [slot ''A'' ''01'' ''0'' 2000 True True]
        (slot ''A'' ''01'' ''0'' 2000 True True)) \<and>
   getLevelWeight (sameLevel [slot ''A'' ''01'' ''0'' 2000 True True]
     (slot ''A'' ''01'' ''0'' 2000 True True)) = Num 2000 \<and>
   \<not> jsgt (jsadd (getLevelWeight (sameLevel [slot ''A'' ''01'' ''0'' 2000 True True]
        (slot ''A'' ''01'' ''0'' 2000 True True))) (Num 0)) (Num 2000) \<and>
   (\<Sum>l\<leftarrow>sameLevel [slot ''A'' ''01'' ''0'' 2000 True True]
        (slot ''A'' ''01'' ''0'' 2000 True True). weightOrZero l) + 0 \<le> 2000 \<and>
   eligible [slot ''A'' ''01'' ''0'' 2000 True True] (Num 0)
     (slot ''A'' ''01'' ''0'' 2000 True True) \<and>
   \<not> eligible [slot ''A'' ''01'' ''0'' 2000 True True] (Num 1)
     (slot ''A'' ''01'' ''0'' 2000 True True) \<and>
   findOptimalLocation [slot ''A'' ''01'' ''0'' 2000 True True] (Num 1) \<noteq>
     Inr (Some (slot ''A'' ''01'' ''0'' 2000 True True))"
proof -
  let ?c = "slot ''A'' ''01'' ''0'' 2000 True True"
  have found: "findOptimalLocation [?c] (Num 0) = Inr (Some ?c)"
    by code_simp
  have cap: "LEVEL_MAX_WEIGHTS (level ?c) = Some 2000"
    by (simp add: slot_def LEVEL_MAX_WEIGHTS_def)
  have full: "getLevelWeight (sameLevel [?c] ?c) = Num 2000"
    by code_simp
  have flags: "available ?c" "verified ?c"
    by (simp_all add: slot_def)
  have whole: "wholeNumber 0"
    by (simp add: wholeNumber_def)
  have wholes: "list_all (\<lambda>l. wholeNumber (weightOrZero l)) (sameLevel [?c] ?c)"
    by (simp add: sameLevel_def availableLocations_def slot_def weightOrZero_def wholeNumber_def)
  from counted_weight_within_cap [of "[?c]" "Num 0" ?c 2000 0 ?c 2000]
    found cap full flags whole wholes
  show ?thesis by simp
qed

text \<open>
  The claim as stated fails for the aggregate weight of the level. An unavailable slot holds
  1900 on the level of an empty available one: for a weight of 500 the empty slot is
  returned, and the level then holds 2400 of 2000.
\<close>

theorem returned_above_level_aggregate:
  "findOptimalLocation
     [slot ''A'' ''01'' ''0'' 1900 False True, slot ''A'' ''01'' ''0'' 0 True True] (Num 500) =
     Inr (Some (slot ''A'' ''01'' ''0'' 0 True True)) \<and>
   LEVEL_MAX_WEIGHTS (level (slot ''A'' ''01'' ''0'' 0 True True)) = Some 2000 \<and>
   getLevelWeight
     (levelSlots [slot ''A'' ''01'' ''0'' 1900 False True, slot ''A'' ''01'' ''0'' 0 True True]
        (slot ''A'' ''01'' ''0'' 0 True True)) = Num 1900 \<and>
   jsgt
     (jsadd
        (getLevelWeight
           (levelSlots [slot ''A'' ''01'' ''0'' 1900 False True, slot ''A'' ''01'' ''0'' 0 True True]
              (slot ''A'' ''01'' ''0'' 0 True True)))
        (Num 500))
     (Num 2000)"
  by code_simp

subsection \<open>C5: only available and verified locations are returned\<close>

text \<open>
  Claim C5. The returned location is a candidate of the list whose \<open>available\<close> and
  \<open>verified\<close> fields are both true.
\<close>

theorem never_unavailable_or_unverified:
  "findOptimalLocation locs w = Inr (Some r) \<Longrightarrow> r \<in> set locs \<and> available r \<and> verified r"
  using found_ranked_member [of locs w r] by (simp add: ranked_iff)

text \<open>
  The unavailable location of bay 1 would have the lower score; the location of bay 2 is
  returned.
\<close>

theorem never_unavailable_or_unverified_witness:
  "findOptimalLocation
     [slot ''A'' ''01'' ''0'' 0 False True, slot ''A'' ''02'' ''0'' 0 True True] (Num 500) =
     Inr (Some (slot ''A'' ''02'' ''0'' 0 True True)) \<and>
   jslt (scoreOf [slot ''A'' ''01'' ''0'' 0 False True, slot ''A'' ''02'' ''0'' 0 True True]
           (Num 500) (slot ''A'' ''01'' ''0'' 0 False True))
        (scoreOf [slot ''A'' ''01'' ''0'' 0 False True, slot ''A'' ''02'' ''0'' 0 True True]
           (Num 500) (slot ''A'' ''02'' ''0'' 0 True True)) \<and>
   available (slot ''A'' ''02'' ''0'' 0 True True) \<and>
   verified (slot ''A'' ''02'' ''0'' 0 True True)"
proof -
  have found: "findOptimalLocation
     [slot ''A'' ''01'' ''0'' 0 False True, slot ''A'' ''02'' ''0'' 0 True True] (Num 500) =
     Inr (Some (slot ''A'' ''02'' ''0'' 0 True True))"
    by code_simp
  have raw: "jslt (scoreOf [slot ''A'' ''01'' ''0'' 0 False True, slot ''A'' ''02'' ''0'' 0 True True]
           (Num 500) (slot ''A'' ''01'' ''0'' 0 False True))
        (scoreOf [slot ''A'' ''01'' ''0'' 0 False True, slot ''A'' ''02'' ''0'' 0 True True]
           (Num 500) (slot ''A'' ''02'' ''0'' 0 True True))"
    by code_simp
  from never_unavailable_or_unverified [OF found] found raw show ?thesis by simp
qed

subsection \<open>C6: no location is a result, not an error\<close>

text \<open>
  Claim C6, as amended. The empty list gives "no location". A list in which every available
  and verified candidate would exceed the maximum of its level, with the level weight counted
  over the available and verified candidates only, gives "no location". No input makes the
  engine fail.
\<close>

theorem no_counted_capacity_no_location:
  "findOptimalLocation [] w = Inr None \<and>
   ((\<forall>c \<in> set locs. available c \<and> verified c \<longrightarrow>
        jsgt (jsadd (getLevelWeight (sameLevel locs c)) w)
          (toNumber (LEVEL_MAX_WEIGHTS (level c)))) \<longrightarrow>
      findOptimalLocation locs w = Inr None) \<and>
   findOptimalLocation locs w \<noteq> Inl e"
proof -
  have empty: "findOptimalLocation [] w = Inr None"
    by (simp add: findOptimalLocation_eq ranked_def availableLocations_def jsSort_def)
  have breach: "findOptimalLocation locs w = Inr None"
    if "\<forall>c \<in> set locs. available c \<and> verified c \<longrightarrow>
          jsgt (jsadd (getLevelWeight (sameLevel locs c)) w)
            (toNumber (LEVEL_MAX_WEIGHTS (level c)))"
  proof -
    have "filter (eligible locs w) (availableLocations locs) = []"
      using that
      by (auto simp: filter_empty_conv eligible_iff withinCap_def availableLocations_def)
    then have "ranked locs w = []" by (rule ranked_Nil_if_no_eligible)
    then show ?thesis by (simp add: findOptimalLocation_eq jsSort_def)
  qed
  have "findOptimalLocation locs w \<noteq> Inl e" by (simp add: findOptimalLocation_eq)
  with empty breach show ?thesis by blast
qed

text \<open>
  A tier-0 level holding 1800 and a weight of 300.
\<close>

theorem no_counted_capacity_no_location_witness:
  "available (slot ''A'' ''01'' ''0'' 1800 True True) \<and>
   verified (slot ''A'' ''01'' ''0'' 1800 True True) \<and>
   jsgt (jsadd (getLevelWeight (sameLevel [slot ''A'' ''01'' ''0'' 1800 True True]
                  (slot ''A'' ''01'' ''0'' 1800 True True))) (Num 300))
        (toNumber (LEVEL_MAX_WEIGHTS (level (slot ''A'' ''01'' ''0'' 1800 True True)))) \<and>
   findOptimalLocation [slot ''A'' ''01'' ''0'' 1800 True True] (Num 300) = Inr None \<and>
   findOptimalLocation [] (Num 300) = Inr None"
proof -
  let ?c = "slot ''A'' ''01'' ''0'' 1800 True True"
  have flags: "available ?c" "verified ?c"
    by (simp_all add: slot_def)
  have breach: "jsgt (jsadd (getLevelWeight (sameLevel [?c] ?c)) (Num 300))
                  (toNumber (LEVEL_MAX_WEIGHTS (level ?c)))"
    by code_simp
  then have "\<forall>c \<in> set [?c]. available c \<and> verified c \<longrightarrow>
               jsgt (jsadd (getLevelWeight (sameLevel [?c] c)) (Num 300))
                 (toNumber (LEVEL_MAX_WEIGHTS (level c)))"
    by simp
  with no_counted_capacity_no_location [of "Num 300" "[?c]"] breach flags show ?thesis by simp
qed

text \<open>
  The claim as stated fails for the aggregate weight of the level. With an unavailable slot
  holding 1900 on the level of an empty available one and a weight of 500, both candidates
  would bring their level to 2400 of 2000, and the empty slot is returned.
\<close>

theorem all_breach_yet_location_returned:
  "jsgt
     (jsadd
        (getLevelWeight
           (levelSlots [slot ''A'' ''01'' ''0'' 1900 False True, slot ''A'' ''01'' ''0'' 0 True True]
              (slot ''A'' ''01'' ''0'' 1900 False True)))
        (Num 500))
     (toNumber (LEVEL_MAX_WEIGHTS (level (slot ''A'' ''01'' ''0'' 1900 False True)))) \<and>
   jsgt
     (jsadd
        (getLevelWeight
           (levelSlots [slot ''A'' ''01'' ''0'' 1900 False True, slot ''A'' ''01'' ''0'' 0 True True]
              (slot ''A'' ''01'' ''0'' 0 True True)))
        (Num 500))
     (toNumber (LEVEL_MAX_WEIGHTS (level (slot ''A'' ''01'' ''0'' 0 True True)))) \<and>
   findOptimalLocation
     [slot ''A'' ''01'' ''0'' 1900 False True, slot ''A'' ''01'' ''0'' 0 True True] (Num 500) =
     Inr (Some (slot ''A'' ''01'' ''0'' 0 True True))"
  by code_simp

subsection \<open>C7: equal scores\<close>

text \<open>
  Claim C7, as amended. If the score of every eligible candidate is a number other than
  \<open>MAX_SAFE_INTEGER\<close> and there is an eligible candidate, then a location is returned, its
  score is the least among the eligible candidates, and no eligible candidate listed before it
  has an equal score: among the candidates that tie for the least score the earliest of the
  input wins. The engine is a function of the list and the weight, so the selection is
  deterministic.
\<close>

theorem earliest_of_least_score:
  assumes numeric: "\<forall>d \<in> set locs. eligible locs w d \<longrightarrow>
                      (\<exists>q. scoreOf locs w d = Num q \<and> q \<noteq> MAX_SAFE_INTEGER)"
    and c: "c \<in> set locs" "eligible locs w c"
  shows "\<exists>r pre post.
           findOptimalLocation locs w = Inr (Some r) \<and> locs = pre @ r # post \<and>
           eligible locs w r \<and>
           (\<forall>d \<in> set locs. eligible locs w d \<longrightarrow> jsle (scoreOf locs w r) (scoreOf locs w d)) \<and>
           (\<forall>d \<in> set pre. eligible locs w d \<longrightarrow> scoreOf locs w d \<noteq> scoreOf locs w r)"
proof -
  have in_ranked: "(d, scoreOf locs w d) \<in> set (ranked locs w)"
    if "d \<in> set locs" "eligible locs w d" for d
  proof -
    from numeric that obtain q where "scoreOf locs w d = Num q" "q \<noteq> MAX_SAFE_INTEGER" by blast
    with that show ?thesis by (simp add: ranked_iff eligible_iff)
  qed
  from in_ranked [OF c] have "ranked locs w \<noteq> []" by auto
  then obtain b rest where sorted: "jsSort (ranked locs w) = b # rest"
    by (cases "jsSort (ranked locs w)") (simp_all add: jsSort_Nil_iff)
  then have found: "findOptimalLocation locs w = Inr (Some (fst b))"
    by (simp add: findOptimalLocation_eq)
  let ?r = "fst b"
  from found_ranked_member [OF found] have el_r: "eligible locs w ?r"
    by (simp add: ranked_iff)
  from found_in_ranked [OF found] sorted have b: "b = (?r, scoreOf locs w ?r)" by simp
  have nums: "\<exists>q. snd s = Num q" if "s \<in> set (ranked locs w)" for s
  proof -
    obtain d q where s: "s = (d, q)" by (cases s)
    with that numeric show ?thesis by (auto simp: ranked_iff)
  qed
  have least: "jsle (scoreOf locs w ?r) (scoreOf locs w d)"
    if "d \<in> set locs" "eligible locs w d" for d
    using jsSort_head_min [OF nums sorted in_ranked [OF that]] b
    by (metis snd_conv)
  from found_earliest_with_score [OF found] obtain pre post
    where "locs = pre @ ?r # post"
      and "\<forall>d \<in> set pre. eligible locs w d \<longrightarrow> scoreOf locs w d \<noteq> scoreOf locs w ?r"
    by blast
  with found el_r least show ?thesis by blast
qed

text \<open>
  A location of bay 2 with the score 1751 comes first in the list; two locations of one level
  in bay 1, holding 200 and 300, follow with the same score 1500 for a weight of 500. The
  earlier of these two is returned.
\<close>

theorem earliest_of_least_score_witness:
  "eligible
     [slot ''A'' ''02'' ''0'' 0 True True, slot ''A'' ''01'' ''0'' 200 True True,
      slot ''A'' ''01'' ''0'' 300 True True]
     (Num 500) (slot ''A'' ''02'' ''0'' 0 True True) \<and>
   eligible
     [slot ''A'' ''02'' ''0'' 0 True True, slot ''A'' ''01'' ''0'' 200 True True,
      slot ''A'' ''01'' ''0'' 300 True True]
     (Num 500) (slot ''A'' ''01'' ''0'' 300 True True) \<and>
   scoreOf
     [slot ''A'' ''02'' ''0'' 0 True True, slot ''A'' ''01'' ''0'' 200 True True,
      slot ''A'' ''01'' ''0'' 300 True True]
     (Num 500) (slot ''A'' ''02'' ''0'' 0 True True) = Num 1751 \<and>
   scoreOf
     [slot ''A'' ''02'' ''0'' 0 True True, slot ''A'' ''01'' ''0'' 200 True True,
      slot ''A'' ''01'' ''0'' 300 True True]
     (Num 500) (slot ''A'' ''01'' ''0'' 200 True True) = Num 1500 \<and>
   scoreOf
     [slot ''A'' ''02'' ''0'' 0 True True, slot ''A'' ''01'' ''0'' 200 True True,
      slot ''A'' ''01'' ''0'' 300 True True]
     (Num 500) (slot ''A'' ''01'' ''0'' 300 True True) = Num 1500 \<and>
   findOptimalLocation
     [slot ''A'' ''02'' ''0'' 0 True True, slot ''A'' ''01'' ''0'' 200 True True,
      slot ''A'' ''01'' ''0'' 300 True True]
     (Num 500) = Inr (Some (slot ''A'' ''01'' ''0'' 200 True True)) \<and>
   (\<exists>r pre post.
      findOptimalLocation
        [slot ''A'' ''02'' ''0'' 0 True True, slot ''A'' ''01'' ''0'' 200 True True,
      slot ''A'' ''01'' ''0'' 300 True True]
        (Num 500) = Inr (Some r) \<and>
      [slot ''A'' ''02'' ''0'' 0 True True, slot ''A'' ''01'' ''0'' 200 True True,
      slot ''A'' ''01'' ''0'' 300 True True] = pre @ r # post \<and>
      eligible
        [slot ''A'' ''02'' ''0'' 0 True True, slot ''A'' ''01'' ''0'' 200 True True,
      slot ''A'' ''01'' ''0'' 300 True True]
        (Num 500) r \<and>
      (\<forall>d \<in> set
         [slot ''A'' ''02'' ''0'' 0 True True, slot ''A'' ''01'' ''0'' 200 True True,
      slot ''A'' ''01'' ''0'' 300 True True].
         eligible
           [slot ''A'' ''02'' ''0'' 0 True True, slot ''A'' ''01'' ''0'' 200 True True,
      slot ''A'' ''01'' ''0'' 300 True True]
           (Num 500) d \<longrightarrow>
         jsle
           (scoreOf
              [slot ''A'' ''02'' ''0'' 0 True True, slot ''A'' ''01'' ''0'' 200 True True,
      slot ''A'' ''01'' ''0'' 300 True True]
              (Num 500) r)
           (scoreOf
              [slot ''A'' ''02'' ''0'' 0 True True, slot ''A'' ''01'' ''0'' 200 True True,
      slot ''A'' ''01'' ''0'' 300 True True]
              (Num 500) d)) \<and>
      (\<forall>d \<in> set pre.
         eligible
           [slot ''A'' ''02'' ''0'' 0 True True, slot ''A'' ''01'' ''0'' 200 True True,
      slot ''A'' ''01'' ''0'' 300 True True]
           (Num 500) d \<longrightarrow>
         scoreOf
           [slot ''A'' ''02'' ''0'' 0 True True, slot ''A'' ''01'' ''0'' 200 True True,
      slot ''A'' ''01'' ''0'' 300 True True]
           (Num 500) d \<noteq>
         scoreOf
           [slot ''A'' ''02'' ''0'' 0 True True, slot ''A'' ''01'' ''0'' 200 True True,
      slot ''A'' ''01'' ''0'' 300 True True]
           (Num 500) r))"
proof -
  let ?x = "slot ''A'' ''02'' ''0'' 0 True True"
  let ?a = "slot ''A'' ''01'' ''0'' 200 True True"
  let ?b = "slot ''A'' ''01'' ''0'' 300 True True"
  let ?L = "[?x, ?a, ?b]"
  have ex: "eligible ?L (Num 500) ?x"
    by code_simp
  have eb: "eligible ?L (Num 500) ?b"
    by code_simp
  have sx: "scoreOf ?L (Num 500) ?x = Num 1751"
    by code_simp
  have sa: "scoreOf ?L (Num 500) ?a = Num 1500"
    by code_simp
  have sb: "scoreOf ?L (Num 500) ?b = Num 1500"
    by code_simp
  have found: "findOptimalLocation ?L (Num 500) = Inr (Some ?a)"
    by code_simp
  have numeric: "\<forall>d \<in> set ?L. eligible ?L (Num 500) d \<longrightarrow>
                   (\<exists>q. scoreOf ?L (Num 500) d = Num q \<and> q \<noteq> MAX_SAFE_INTEGER)"
    using sx sa sb by (simp add: MAX_SAFE_INTEGER_def)
  have mem: "?b \<in> set ?L"
    by simp
  from earliest_of_least_score [OF numeric mem eb] ex eb sx sa sb found show ?thesis
    by blast
qed

text \<open>
  The claim as stated fails: two eligible candidates of one level tie with the score
  \<open>9007199254739491 + 1500 = MAX_SAFE_INTEGER\<close>; both are dropped after scoring and the
  engine returns "no location" instead of the earlier of the two.
\<close>

theorem tied_sentinel_scores_none_returned:
  "eligible
     [slot ''A'' ''9007199254739492'' ''0'' 200 True True,
      slot ''A'' ''9007199254739492'' ''0'' 300 True True] (Num 500)
     (slot ''A'' ''9007199254739492'' ''0'' 200 True True) \<and>
   eligible
     [slot ''A'' ''9007199254739492'' ''0'' 200 True True,
      slot ''A'' ''9007199254739492'' ''0'' 300 True True] (Num 500)
     (slot ''A'' ''9007199254739492'' ''0'' 300 True True) \<and>
   scoreOf
     [slot ''A'' ''9007199254739492'' ''0'' 200 True True,
      slot ''A'' ''9007199254739492'' ''0'' 300 True True] (Num 500)
     (slot ''A'' ''9007199254739492'' ''0'' 200 True True) = Num MAX_SAFE_INTEGER \<and>
   scoreOf
     [slot ''A'' ''9007199254739492'' ''0'' 200 True True,
      slot ''A'' ''9007199254739492'' ''0'' 300 True True] (Num 500)
     (slot ''A'' ''9007199254739492'' ''0'' 300 True True) = Num MAX_SAFE_INTEGER \<and>
   findOptimalLocation
     [slot ''A'' ''9007199254739492'' ''0'' 200 True True,
      slot ''A'' ''9007199254739492'' ''0'' 300 True True] (Num 500) = Inr None"
  by code_simp

subsection \<open>C8: the score\<close>

text \<open>
  Claim C8, as amended. The entries that \<open>findOptimalLocation\<close> scores and sorts are the
  eligible candidates, each with the stated score \<open>distanceScore + weightScore\<close>, where the
  new level weight is the required weight plus the \<open>currentWeight\<close> of the available and
  verified candidates of the level; the weight of the other slots of the level does not enter.
  An entry whose score is \<open>MAX_SAFE_INTEGER\<close> is dropped before the sort, and the result is
  the location of the first sorted entry.
\<close>

theorem score_used_by_findOptimalLocation:
  "scoredLocations (levelGroups (availableLocations locs)) w
     (filter (eligible locs w) (availableLocations locs)) =
   Inr (filter (\<lambda>s. jsStrictNe (snd s) (Num MAX_SAFE_INTEGER))
          (map (\<lambda>c. (c, statedScore (getLevelWeight (sameLevel locs c)) w c))
             (filter (eligible locs w) (availableLocations locs)))) \<and>
   findOptimalLocation locs w =
   Inr (case jsSort
              (filter (\<lambda>s. jsStrictNe (snd s) (Num MAX_SAFE_INTEGER))
                 (map (\<lambda>c. (c, statedScore (getLevelWeight (sameLevel locs c)) w c))
                    (filter (eligible locs w) (availableLocations locs)))) of
          [] \<Rightarrow> None
        | best # _ \<Rightarrow> Some (fst best))"
proof -
  have mapeq: "map (\<lambda>c. (c, scoreOf locs w c)) (filter (eligible locs w) (availableLocations locs)) =
        map (\<lambda>c. (c, statedScore (getLevelWeight (sameLevel locs c)) w c))
          (filter (eligible locs w) (availableLocations locs))"
    by (rule map_cong) (simp_all add: scoreOf_stated)
  have r: "ranked locs w =
        filter (\<lambda>s. jsStrictNe (snd s) (Num MAX_SAFE_INTEGER))
          (map (\<lambda>c. (c, statedScore (getLevelWeight (sameLevel locs c)) w c))
             (filter (eligible locs w) (availableLocations locs)))"
    by (simp only: ranked_def mapeq)
  show ?thesis
    using scoredLocations_eq [of locs w] findOptimalLocation_eq [of locs w]
    unfolding r by simp
qed

text \<open>
  A tier-1 location of row \<open>B\<close> and bay 3 that holds 250, and a weight of 500: the score
  is \<open>102 + (1000 + 750 + 500) = 2352\<close>.
\<close>

theorem score_used_by_findOptimalLocation_witness:
  "scoredLocations (levelGroups (availableLocations [slot ''B'' ''03'' ''1'' 250 True True]))
     (Num 500)
     (filter (eligible [slot ''B'' ''03'' ''1'' 250 True True] (Num 500))
        (availableLocations [slot ''B'' ''03'' ''1'' 250 True True])) =
   Inr [(slot ''B'' ''03'' ''1'' 250 True True, Num 2352)] \<and>
   findOptimalLocation [slot ''B'' ''03'' ''1'' 250 True True] (Num 500) =
   Inr (Some (slot ''B'' ''03'' ''1'' 250 True True))"
proof -
  let ?c = "slot ''B'' ''03'' ''1'' 250 True True"
  have entries:
    "filter (\<lambda>s. jsStrictNe (snd s) (Num MAX_SAFE_INTEGER))
       (map (\<lambda>c. (c, statedScore (getLevelWeight (sameLevel [?c] c)) (Num 500) c))
          (filter (eligible [?c] (Num 500)) (availableLocations [?c]))) =
     [(?c, Num 2352)]"
    by code_simp
  from score_used_by_findOptimalLocation [of "[?c]" "Num 500"]
  show ?thesis
    unfolding entries by (simp add: jsSort_def)
qed

text \<open>
  The claim as stated fails for the aggregate weight of the level. An unavailable slot holds
  1000 on the level of an empty available one. For a weight of 500 the engine scores the empty
  slot with a new level weight of 500, which gives 1750; with the level's aggregate the stated
  score would be 1250.
\<close>

theorem score_ignores_unavailable_weight:
  "eligible [slot ''A'' ''01'' ''0'' 1000 False True, slot ''A'' ''01'' ''0'' 0 True True]
     (Num 500) (slot ''A'' ''01'' ''0'' 0 True True) \<and>
   scoredLocations
     (levelGroups (availableLocations
        [slot ''A'' ''01'' ''0'' 1000 False True, slot ''A'' ''01'' ''0'' 0 True True]))
     (Num 500)
     (filter
        (eligible [slot ''A'' ''01'' ''0'' 1000 False True, slot ''A'' ''01'' ''0'' 0 True True]
           (Num 500))
        (availableLocations
           [slot ''A'' ''01'' ''0'' 1000 False True, slot ''A'' ''01'' ''0'' 0 True True])) =
   Inr [(slot ''A'' ''01'' ''0'' 0 True True, Num 1750)] \<and>
   getLevelWeight
     (levelSlots [slot ''A'' ''01'' ''0'' 1000 False True, slot ''A'' ''01'' ''0'' 0 True True]
        (slot ''A'' ''01'' ''0'' 0 True True)) = Num 1000 \<and>
   statedScore
     (getLevelWeight
        (levelSlots [slot ''A'' ''01'' ''0'' 1000 False True, slot ''A'' ''01'' ''0'' 0 True True]
           (slot ''A'' ''01'' ''0'' 0 True True)))
     (Num 500) (slot ''A'' ''01'' ''0'' 0 True True) = Num 1250"
  by code_simp

subsection \<open>C9: the engine without the sentinel\<close>

text \<open>
  Claim C9, as amended. For a candidate that passes \<open>canAcceptWeight\<close> the over-capacity
  branch of the scorer is not taken: the weight score is the one of the branch-free scorer.
  On every input in which no eligible candidate has the score \<open>MAX_SAFE_INTEGER\<close>, the
  simplified engine returns what \<open>findOptimalLocation\<close> returns.
\<close>

theorem simplified_engine_agrees:
  "(canAcceptWeight c w ls \<longrightarrow>
      calculateWeightScore w (level c) ls = simplifiedWeightScore w (level c) ls) \<and>
   ((\<forall>d \<in> set locs. eligible locs w d \<longrightarrow>
        jsStrictNe (scoreOf locs w d) (Num MAX_SAFE_INTEGER)) \<longrightarrow>
      simplifiedFindOptimalLocation locs w = findOptimalLocation locs w)"
proof -
  have agree: "simplifiedFindOptimalLocation locs w = findOptimalLocation locs w"
    if "\<forall>d \<in> set locs. eligible locs w d \<longrightarrow> jsStrictNe (scoreOf locs w d) (Num MAX_SAFE_INTEGER)"
  proof -
    have "ranked locs w =
          map (\<lambda>c. (c, scoreOf locs w c)) (filter (eligible locs w) (availableLocations locs))"
      unfolding ranked_def using that
      by (intro filter_True) (auto simp: availableLocations_def)
    then show ?thesis
      by (simp add: simplifiedFindOptimalLocation_eq findOptimalLocation_eq)
  qed
  with calculateWeightScore_eligible [of c w ls] show ?thesis by blast
qed

text \<open>
  Two empty tier-0 locations and a weight of 500.
\<close>

theorem simplified_engine_agrees_witness:
  "canAcceptWeight (slot ''A'' ''01'' ''0'' 0 True True) (Num 500)
     [slot ''A'' ''01'' ''0'' 0 True True] \<and>
   calculateWeightScore (Num 500) (level (slot ''A'' ''01'' ''0'' 0 True True))
     [slot ''A'' ''01'' ''0'' 0 True True] =
   simplifiedWeightScore (Num 500) (level (slot ''A'' ''01'' ''0'' 0 True True))
     [slot ''A'' ''01'' ''0'' 0 True True] \<and>
   scoreOf [slot ''A'' ''01'' ''0'' 0 True True, slot ''A'' ''02'' ''0'' 0 True True]
     (Num 500) (slot ''A'' ''01'' ''0'' 0 True True) = Num 1750 \<and>
   scoreOf [slot ''A'' ''01'' ''0'' 0 True True, slot ''A'' ''02'' ''0'' 0 True True]
     (Num 500) (slot ''A'' ''02'' ''0'' 0 True True) = Num 1751 \<and>
   simplifiedFindOptimalLocation
     [slot ''A'' ''01'' ''0'' 0 True True, slot ''A'' ''02'' ''0'' 0 True True] (Num 500) =
   findOptimalLocation
     [slot ''A'' ''01'' ''0'' 0 True True, slot ''A'' ''02'' ''0'' 0 True True] (Num 500) \<and>
   findOptimalLocation
     [slot ''A'' ''01'' ''0'' 0 True True, slot ''A'' ''02'' ''0'' 0 True True] (Num 500) =
   Inr (Some (slot ''A'' ''01'' ''0'' 0 True True))"
proof -
  let ?a = "slot ''A'' ''01'' ''0'' 0 True True"
  let ?b = "slot ''A'' ''02'' ''0'' 0 True True"
  let ?L = "[?a, ?b]"
  have acc: "canAcceptWeight ?a (Num 500) [?a]"
    by code_simp
  have sa: "scoreOf ?L (Num 500) ?a = Num 1750"
    by code_simp
  have sb: "scoreOf ?L (Num 500) ?b = Num 1751"
    by code_simp
  have clean: "\<forall>d \<in> set ?L. eligible ?L (Num 500) d \<longrightarrow>
                 jsStrictNe (scoreOf ?L (Num 500) d) (Num MAX_SAFE_INTEGER)"
    using sa sb by (simp add: MAX_SAFE_INTEGER_def)
  have found: "findOptimalLocation ?L (Num 500) = Inr (Some ?a)"
    by code_simp
  from simplified_engine_agrees [of ?a "Num 500" "[?a]" ?L] acc clean found sa sb
  show ?thesis by simp
qed

text \<open>
  The claim as stated fails: the filter after scoring removes an eligible candidate whose
  score is exactly \<open>MAX_SAFE_INTEGER\<close>, and the two engines then differ.
\<close>

theorem sentinel_filter_drops_eligible:
  "eligible [slot ''A'' ''9007199254739492'' ''0'' 0 True True] (Num 1000)
     (slot ''A'' ''9007199254739492'' ''0'' 0 True True) \<and>
   scoreOf [slot ''A'' ''9007199254739492'' ''0'' 0 True True] (Num 1000)
     (slot ''A'' ''9007199254739492'' ''0'' 0 True True) = Num MAX_SAFE_INTEGER \<and>
   simplifiedFindOptimalLocation [slot ''A'' ''9007199254739492'' ''0'' 0 True True] (Num 1000) =
     Inr (Some (slot ''A'' ''9007199254739492'' ''0'' 0 True True)) \<and>
   findOptimalLocation [slot ''A'' ''9007199254739492'' ''0'' 0 True True] (Num 1000) =
     Inr None"
  by code_simp

subsection \<open>C10: the level weight counts available and verified locations only\<close>

text \<open>
  Claim C10. The array the engine reads for a candidate's level holds the available and
  verified candidates with the candidate's level key, in input order; its weight is the sum
  of their \<open>currentWeight\<close>, a missing one counting as zero; the locations that are
  unavailable or unverified have no influence on the result.
\<close>

theorem level_weight_over_available_only:
  "(c \<in> set locs \<and> available c \<and> verified c \<longrightarrow>
      levelLocationsOf (levelGroups (availableLocations locs)) c =
        Inr (filter (\<lambda>l. available l \<and> verified l \<and> getLevelId l = getLevelId c) locs)) \<and>
   getLevelWeight ls = Num (\<Sum>l\<leftarrow>ls. weightOrZero l) \<and>
   (currentWeight l = None \<longrightarrow> weightOrZero l = 0) \<and>
   findOptimalLocation locs w =
     findOptimalLocation (filter (\<lambda>l. available l \<and> verified l) locs) w"
proof -
  have grp: "levelLocationsOf (levelGroups (availableLocations locs)) c =
        Inr (filter (\<lambda>l. available l \<and> verified l \<and> getLevelId l = getLevelId c) locs)"
    if "c \<in> set locs" "available c" "verified c"
  proof -
    from that have "c \<in> set (availableLocations locs)" by (simp add: availableLocations_def)
    from levelLocationsOf_available [OF this] show ?thesis
      by (simp add: sameLevel_def availableLocations_def conj_commute conj_left_commute)
  qed
  have same: "findOptimalLocation locs w =
     findOptimalLocation (filter (\<lambda>l. available l \<and> verified l) locs) w"
    using ranked_available [of locs w]
    by (simp add: findOptimalLocation_eq availableLocations_def)
  have missing: "weightOrZero l = 0" if "currentWeight l = None"
    using that by (simp add: weightOrZero_def)
  from grp same missing getLevelWeight_Num [of ls] show ?thesis by blast
qed

text \<open>
  An unavailable location holds 1900 on the level of an empty available one. A weight of 500
  is accepted there.
\<close>

theorem level_weight_over_available_only_witness:
  "slot ''A'' ''01'' ''0'' 0 True True \<in>
     set [slot ''A'' ''01'' ''0'' 1900 False True, slot ''A'' ''01'' ''0'' 0 True True] \<and>
   levelLocationsOf
     (levelGroups (availableLocations
        [slot ''A'' ''01'' ''0'' 1900 False True, slot ''A'' ''01'' ''0'' 0 True True]))
     (slot ''A'' ''01'' ''0'' 0 True True) = Inr [slot ''A'' ''01'' ''0'' 0 True True] \<and>
   getLevelWeight [slot ''A'' ''01'' ''0'' 0 True True] = Num 0 \<and>
   findOptimalLocation
     [slot ''A'' ''01'' ''0'' 1900 False True, slot ''A'' ''01'' ''0'' 0 True True] (Num 500) =
     Inr (Some (slot ''A'' ''01'' ''0'' 0 True True)) \<and>
   currentWeight ((slot ''A'' ''01'' ''0'' 0 True True)\<lparr>currentWeight := None\<rparr>) = None \<and>
   weightOrZero ((slot ''A'' ''01'' ''0'' 0 True True)\<lparr>currentWeight := None\<rparr>) = 0"
proof -
  let ?u = "slot ''A'' ''01'' ''0'' 1900 False True"
  let ?a = "slot ''A'' ''01'' ''0'' 0 True True"
  have mem: "?a \<in> set [?u, ?a]" by simp
  have flags: "available ?a" "verified ?a" "\<not> available ?u"
    by (simp_all add: slot_def)
  have key: "getLevelId ?u = getLevelId ?a"
    by (simp add: slot_def getLevelId_def)
  have found: "findOptimalLocation [?u, ?a] (Num 500) = Inr (Some ?a)"
    by code_simp
  have none: "currentWeight (?a\<lparr>currentWeight := None\<rparr>) = None" by simp
  from level_weight_over_available_only
         [of ?a "[?u, ?a]" "[?a]" "?a\<lparr>currentWeight := None\<rparr>" "Num 500"]
       mem flags key found none
  show ?thesis
    by (simp add: weightOrZero_def slot_def)
qed

end
